theory Spec2Isabelle
  imports Main "HOL-Library.Word"
begin

section \<open>Tokens\<close>

text \<open>
  Modelled from the spec: package \<^verbatim>\<open>token\<close> is imported by \<^verbatim>\<open>ast/ast.go\<close> and
  \<^verbatim>\<open>repl/repl.go\<close> but is not among the sources. The spec gives a token as
  \<^verbatim>\<open>{ kind: enumerated category, literal: source substring }\<close> with the categories
  end-of-input, identifier, integer literal, the operators and delimiters
  \<^verbatim>\<open>= + - ! * / < > == != , ; ( ) { }\<close>, the keywords
  \<^verbatim>\<open>fn let true false if else return\<close> and an illegal-token category. The code reads
  the two fields as \<^verbatim>\<open>tok.Type\<close> and \<^verbatim>\<open>tok.Literal\<close> and names the end-of-input
  category \<^verbatim>\<open>token.EOF\<close>.
\<close>

datatype token_type =
    ILLEGAL | EOF | IDENT | INT'
  | ASSIGN | PLUS | MINUS | BANG | ASTERISK | SLASH | LT | GT | EQ | NOT_EQ
  | COMMA | SEMICOLON | LPAREN | RPAREN | LBRACE | RBRACE
  | FUNCTION | LET | TRUE | FALSE | IF | ELSE | RETURN

record token =
  Type :: token_type
  Literal :: string

section \<open>Run-time panics\<close>

text \<open>
  A Go field of pointer or interface type may be \<^verbatim>\<open>nil\<close>. Such a field is an
  \<open>option\<close> here (\<open>None\<close> is \<^verbatim>\<open>nil\<close>), and a method that reads a field through a
  \<^verbatim>\<open>nil\<close> receiver, or calls a method on a \<^verbatim>\<open>nil\<close> interface, panics: the
  model returns \<open>Inl NilPointerDereference\<close>. Writing to a \<^verbatim>\<open>nil\<close> map panics too.
  An interface value that is not \<^verbatim>\<open>nil\<close> always holds a pointer to an allocated
  struct in this model.
\<close>

datatype panic = NilPointerDereference | NilMapAssignment

fun bind :: "panic + 'a \<Rightarrow> ('a \<Rightarrow> panic + 'b) \<Rightarrow> panic + 'b" where
  "bind (Inl p) f = Inl p"
| "bind (Inr x) f = f x"

section \<open>The AST (ast/ast.go)\<close>

text \<open>
  \<^verbatim>\<open>Identifier\<close> and \<^verbatim>\<open>BlockStatement\<close> are used both through the interfaces
  \<^verbatim>\<open>Expression\<close> and \<^verbatim>\<open>Statement\<close> and through plain pointers
  (\<^verbatim>\<open>*Identifier\<close>, \<^verbatim>\<open>*BlockStatement\<close>), so each is a type of its own with an
  injection into the interface type. The fields of every constructor are in the order of
  the struct declaration; the first one is always \<^verbatim>\<open>Token\<close>.
\<close>

datatype Identifier = Identifier token string

datatype expression =
    Identifier_expr Identifier
  | IntegerLiteral token "64 word"
  | PrefixExpression token string "expression option"
  | InfixExpression token "expression option" string "expression option"
  | Boolean token bool
  | IfExpression token "expression option" "block_statement option" "block_statement option"
  | FunctionLiteral token "Identifier option list" "block_statement option"
  | CallExpression token "expression option" "expression option list"
and statement =
    LetStatement token "Identifier option" "expression option"
  | ReturnStatement token "expression option"
  | ExpressionStatement token "expression option"
  | BlockStatement_stmt block_statement
and block_statement = BlockStatement token "statement option list"

datatype program = Program "statement option list"

text \<open>The interface \<^verbatim>\<open>Node\<close>: a program, a statement or an expression.\<close>

datatype Node =
    Node_program program
  | Node_statement statement
  | Node_expression expression

subsection \<open>The Token field of each struct\<close>

fun Token_Identifier :: "Identifier \<Rightarrow> token" where
  "Token_Identifier (Identifier tok v) = tok"

fun Token_block_statement :: "block_statement \<Rightarrow> token" where
  "Token_block_statement (BlockStatement tok ss) = tok"

fun Token_expression :: "expression \<Rightarrow> token" where
  "Token_expression (Identifier_expr i) = Token_Identifier i"
| "Token_expression (IntegerLiteral tok v) = tok"
| "Token_expression (PrefixExpression tok opr r) = tok"
| "Token_expression (InfixExpression tok l opr r) = tok"
| "Token_expression (Boolean tok v) = tok"
| "Token_expression (IfExpression tok c t e) = tok"
| "Token_expression (FunctionLiteral tok ps b) = tok"
| "Token_expression (CallExpression tok f as) = tok"

fun Token_statement :: "statement \<Rightarrow> token" where
  "Token_statement (LetStatement tok n v) = tok"
| "Token_statement (ReturnStatement tok v) = tok"
| "Token_statement (ExpressionStatement tok e) = tok"
| "Token_statement (BlockStatement_stmt b) = Token_block_statement b"

text \<open>\<^verbatim>\<open>Program\<close> is the one struct without a \<^verbatim>\<open>Token\<close> field.\<close>

fun Token_Node :: "Node \<Rightarrow> token option" where
  "Token_Node (Node_program p) = None"
| "Token_Node (Node_statement s) = Some (Token_statement s)"
| "Token_Node (Node_expression e) = Some (Token_expression e)"

subsection \<open>TokenLiteral\<close>

text \<open>
  Every \<^verbatim>\<open>TokenLiteral\<close> method but the program's returns \<^verbatim>\<open>x.Token.Literal\<close>;
  the argument is the pointer or interface value the method is called on.
\<close>

fun TokenLiteral_Identifier :: "Identifier option \<Rightarrow> panic + string" where
  "TokenLiteral_Identifier None = Inl NilPointerDereference"
| "TokenLiteral_Identifier (Some (Identifier tok v)) = Inr (Literal tok)"

fun TokenLiteral_block_statement :: "block_statement option \<Rightarrow> panic + string" where
  "TokenLiteral_block_statement None = Inl NilPointerDereference"
| "TokenLiteral_block_statement (Some (BlockStatement tok ss)) = Inr (Literal tok)"

fun TokenLiteral_expression :: "expression option \<Rightarrow> panic + string" where
  "TokenLiteral_expression None = Inl NilPointerDereference"
| "TokenLiteral_expression (Some (Identifier_expr i)) = TokenLiteral_Identifier (Some i)"
| "TokenLiteral_expression (Some (IntegerLiteral tok v)) = Inr (Literal tok)"
| "TokenLiteral_expression (Some (PrefixExpression tok opr r)) = Inr (Literal tok)"
| "TokenLiteral_expression (Some (InfixExpression tok l opr r)) = Inr (Literal tok)"
| "TokenLiteral_expression (Some (Boolean tok v)) = Inr (Literal tok)"
| "TokenLiteral_expression (Some (IfExpression tok c t e)) = Inr (Literal tok)"
| "TokenLiteral_expression (Some (FunctionLiteral tok ps b)) = Inr (Literal tok)"
| "TokenLiteral_expression (Some (CallExpression tok f as)) = Inr (Literal tok)"

fun TokenLiteral_statement :: "statement option \<Rightarrow> panic + string" where
  "TokenLiteral_statement None = Inl NilPointerDereference"
| "TokenLiteral_statement (Some (LetStatement tok n v)) = Inr (Literal tok)"
| "TokenLiteral_statement (Some (ReturnStatement tok v)) = Inr (Literal tok)"
| "TokenLiteral_statement (Some (ExpressionStatement tok e)) = Inr (Literal tok)"
| "TokenLiteral_statement (Some (BlockStatement_stmt b)) =
     TokenLiteral_block_statement (Some b)"

text \<open>
  \<^verbatim>\<open>if len(p.Statements) > 0 { return p.Statements[0].TokenLiteral() }; return ""\<close>
\<close>

fun TokenLiteral_program :: "program \<Rightarrow> panic + string" where
  "TokenLiteral_program (Program ss) =
     (if length ss > 0 then TokenLiteral_statement (ss ! 0) else Inr '''')"

fun TokenLiteral_Node :: "Node \<Rightarrow> panic + string" where
  "TokenLiteral_Node (Node_program p) = TokenLiteral_program p"
| "TokenLiteral_Node (Node_statement s) = TokenLiteral_statement (Some s)"
| "TokenLiteral_Node (Node_expression e) = TokenLiteral_expression (Some e)"

subsection \<open>String\<close>

text \<open>\<^verbatim>\<open>strings.Join(elems, sep)\<close>.\<close>

fun Join :: "string list \<Rightarrow> string \<Rightarrow> string" where
  "Join [] sep = ''''"
| "Join [x] sep = x"
| "Join (x # y # ys) sep = x @ sep @ Join (y # ys) sep"

fun String_Identifier :: "Identifier option \<Rightarrow> panic + string" where
  "String_Identifier None = Inl NilPointerDereference"
| "String_Identifier (Some (Identifier tok v)) = Inr v"

text \<open>
  The loop \<^verbatim>\<open>for _, p := range fl.Parameters { params = append(params, p.String()) }\<close>,
  with the slice built so far as accumulator.
\<close>

fun String_parameters :: "Identifier option list \<Rightarrow> string list \<Rightarrow> panic + string list" where
  "String_parameters [] params = Inr params"
| "String_parameters (p # ps) params =
     bind (String_Identifier p) (\<lambda>s. String_parameters ps (params @ [s]))"

text \<open>
  The methods \<^verbatim>\<open>String\<close> of the expressions, the statements and the block, and the
  two kinds of loop over children: \<open>String_statements\<close> is
  \<^verbatim>\<open>for _, s := range Statements { out.WriteString(s.String()) }\<close> with the buffer as
  accumulator, \<open>String_arguments\<close> is the loop over \<^verbatim>\<open>ce.Arguments\<close>. A buffer
  \<^verbatim>\<open>out\<close> written in sequence is the concatenation of the pieces, each piece
  evaluated in the order of the source.
\<close>

fun String_expression :: "expression option \<Rightarrow> panic + string"
and String_statement :: "statement option \<Rightarrow> panic + string"
and String_block_statement :: "block_statement option \<Rightarrow> panic + string"
and String_statements :: "statement option list \<Rightarrow> string \<Rightarrow> panic + string"
and String_arguments :: "expression option list \<Rightarrow> string list \<Rightarrow> panic + string list"
where
  "String_expression None = Inl NilPointerDereference"
| "String_expression (Some (Identifier_expr i)) = String_Identifier (Some i)"
| "String_expression (Some (IntegerLiteral tok v)) = Inr (Literal tok)"
| "String_expression (Some (PrefixExpression tok opr r)) =
     bind (String_expression r) (\<lambda>rs.
     Inr (''('' @ opr @ rs @ '')''))"
| "String_expression (Some (InfixExpression tok l opr r)) =
     bind (String_expression l) (\<lambda>ls.
     bind (String_expression r) (\<lambda>rs.
     Inr (''('' @ ls @ ('' '' @ opr @ '' '') @ rs @ '')'')))"
| "String_expression (Some (Boolean tok v)) = Inr (Literal tok)"
| "String_expression (Some (IfExpression tok c t e)) =
     bind (String_expression c) (\<lambda>cs.
     bind (String_block_statement t) (\<lambda>ts.
     if e \<noteq> None
     then bind (String_block_statement e) (\<lambda>es.
          Inr (''if'' @ cs @ '' '' @ ts @ ''else '' @ es))
     else Inr (''if'' @ cs @ '' '' @ ts)))"
| "String_expression (Some (FunctionLiteral tok ps b)) =
     bind (String_parameters ps []) (\<lambda>params.
     bind (String_block_statement b) (\<lambda>bs.
     Inr (Literal tok @ ''('' @ Join params '', '' @ '') '' @ bs)))"
| "String_expression (Some (CallExpression tok f as)) =
     bind (String_arguments as []) (\<lambda>args.
     bind (String_expression f) (\<lambda>fs.
     Inr (fs @ ''('' @ Join args '', '' @ '')'')))"
| "String_statement None = Inl NilPointerDereference"
| "String_statement (Some (LetStatement tok n v)) =
     bind (String_Identifier n) (\<lambda>ns.
     if v \<noteq> None
     then bind (String_expression v) (\<lambda>vs.
          Inr ((Literal tok @ '' '') @ ns @ '' = '' @ vs @ '';''))
     else Inr ((Literal tok @ '' '') @ ns @ '' = '' @ '';''))"
| "String_statement (Some (ReturnStatement tok v)) =
     (if v \<noteq> None
      then bind (String_expression v) (\<lambda>vs.
           Inr ((Literal tok @ '' '') @ vs @ '';''))
      else Inr ((Literal tok @ '' '') @ '';''))"
| "String_statement (Some (ExpressionStatement tok e)) =
     (if e \<noteq> None then String_expression e else Inr '''')"
| "String_statement (Some (BlockStatement_stmt b)) = String_block_statement (Some b)"
| "String_block_statement None = Inl NilPointerDereference"
| "String_block_statement (Some (BlockStatement tok ss)) = String_statements ss ''''"
| "String_statements [] out = Inr out"
| "String_statements (s # ss) out =
     bind (String_statement s) (\<lambda>t. String_statements ss (out @ t))"
| "String_arguments [] args = Inr args"
| "String_arguments (a # as) args =
     bind (String_expression a) (\<lambda>s. String_arguments as (args @ [s]))"

fun String_program :: "program \<Rightarrow> panic + string" where
  "String_program (Program ss) = String_statements ss ''''"


section \<open>Objects (package object)\<close>

text \<open>
  A pointer to an \<^verbatim>\<open>Environment\<close> is an address into the heap of environments
  defined below; \<^verbatim>\<open>nil\<close> is \<open>None\<close>. A value of the interface \<^verbatim>\<open>Object\<close> is an
  \<open>object option\<close>, \<open>None\<close> being the \<^verbatim>\<open>nil\<close> interface.
\<close>

type_synonym addr = nat

datatype object =
    Null
  | Boolean_obj bool
  | Integer "64 word"
  | ReturnValue "object option"
  | Error string
  | Function "Identifier option list" "block_statement option" "addr option"

type_synonym Object = "object option"

definition NULL_OBJ :: string where "NULL_OBJ = ''NULL''"
definition BOOLEAN_OBJ :: string where "BOOLEAN_OBJ = ''BOOLEAN''"
definition INTEGER_OBJ :: string where "INTEGER_OBJ = ''INTEGER''"
definition RETURN_VALUE_OBJ :: string where "RETURN_VALUE_OBJ = ''RETURN_VALUE''"
definition ERROR_OBJ :: string where "ERROR_OBJ = ''ERROR''"
definition FUNCTION_OBJ :: string where "FUNCTION_OBJ = ''FUNCTION''"

fun Type_obj :: "Object \<Rightarrow> panic + string" where
  "Type_obj None = Inl NilPointerDereference"
| "Type_obj (Some Null) = Inr NULL_OBJ"
| "Type_obj (Some (Boolean_obj b)) = Inr BOOLEAN_OBJ"
| "Type_obj (Some (Integer i)) = Inr INTEGER_OBJ"
| "Type_obj (Some (ReturnValue v)) = Inr RETURN_VALUE_OBJ"
| "Type_obj (Some (Error m)) = Inr ERROR_OBJ"
| "Type_obj (Some (Function ps b env)) = Inr FUNCTION_OBJ"

text \<open>
  \<^verbatim>\<open>fmt.Sprintf("%t", b)\<close> and \<^verbatim>\<open>fmt.Sprintf("%d", i)\<close> for an \<^verbatim>\<open>int64\<close>: the
  decimal digits of the magnitude, most significant first, after a minus sign when the
  value is negative.
\<close>

definition Sprintf_t :: "bool \<Rightarrow> string" where
  "Sprintf_t b = (if b then ''true'' else ''false'')"

fun decimal :: "nat \<Rightarrow> string" where
  "decimal n =
     (if n < 10 then [''0123456789'' ! n]
      else decimal (n div 10) @ [''0123456789'' ! (n mod 10)])"

declare decimal.simps [simp del]

definition Sprintf_d :: "64 word \<Rightarrow> string" where
  "Sprintf_d i =
     (if sint i < 0 then CHR ''-'' # decimal (nat (- sint i)) else decimal (nat (sint i)))"

fun Inspect :: "Object \<Rightarrow> panic + string" where
  "Inspect None = Inl NilPointerDereference"
| "Inspect (Some Null) = Inr ''null''"
| "Inspect (Some (Boolean_obj b)) = Inr (Sprintf_t b)"
| "Inspect (Some (Integer i)) = Inr (Sprintf_d i)"
| "Inspect (Some (ReturnValue v)) = Inspect v"
| "Inspect (Some (Error m)) = Inr (''ERROR: '' @ m)"
| "Inspect (Some (Function ps b env)) =
     bind (String_parameters ps []) (\<lambda>params.
     bind (String_block_statement b) (\<lambda>bs.
     Inr (''fn'' @ '' ( '' @ Join params '', '' @ '') {'' @ [CHR 0x0A] @ bs @ [CHR 0x0A] @ ''}'')))"

section \<open>Environments (package object)\<close>

text \<open>
  \<^verbatim>\<open>type Environment struct { store map[string]Object; outer *Environment }\<close>.
  Environments are shared through pointers and \<^verbatim>\<open>Set\<close> mutates one in place, so
  they live in a heap: the list of all environments allocated so far, an address being
  an index into it. Allocation appends; nothing is ever freed while it can be reached.
  A map that is \<^verbatim>\<open>nil\<close> (the zero value of the field) is \<open>None\<close>: reading it finds
  nothing, writing to it panics. The map of an environment is made by
  \<^verbatim>\<open>NewEnvironment\<close> for this environment and no code of the package passes it on
  to another one, so the map is part of the environment here.
\<close>

record Environment =
  store :: "(string \<rightharpoonup> Object) option"
  outer :: "addr option"

type_synonym heap = "Environment list"

text \<open>
  Following a pointer. Go has no dangling pointers; an address outside the heap is
  treated like \<^verbatim>\<open>nil\<close>.
\<close>

definition deref :: "heap \<Rightarrow> addr option \<Rightarrow> panic + Environment" where
  "deref h p =
     (case p of
        None \<Rightarrow> Inl NilPointerDereference
      | Some a \<Rightarrow> if a < length h then Inr (h ! a) else Inl NilPointerDereference)"

text \<open>The two-valued map read \<^verbatim>\<open>obj, ok := m[name]\<close>.\<close>

definition index_map :: "(string \<rightharpoonup> Object) option \<Rightarrow> string \<Rightarrow> Object \<times> bool" where
  "index_map m name =
     (case m of
        None \<Rightarrow> (None, False)
      | Some f \<Rightarrow> (case f name of None \<Rightarrow> (None, False) | Some v \<Rightarrow> (v, True)))"

text \<open>
  \<^verbatim>\<open>s := make(map[string]Object); return &Environment{store: s, outer: nil}\<close>:
  the result is the new address and the heap with the new environment.
\<close>

definition NewEnvironment :: "heap \<Rightarrow> addr option \<times> heap" where
  "NewEnvironment h = (Some (length h), h @ [\<lparr>store = Some Map.empty, outer = None\<rparr>])"

text \<open>\<^verbatim>\<open>env := NewEnvironment(); env.outer = outer; return env\<close>\<close>

definition NewEnclosedEnvironment :: "heap \<Rightarrow> addr option \<Rightarrow> panic + addr option \<times> heap" where
  "NewEnclosedEnvironment h outer' =
     (case NewEnvironment h of (env, h1) \<Rightarrow>
        bind (deref h1 env) (\<lambda>e.
        Inr (env, h1[the env := e\<lparr>outer := outer'\<rparr>])))"

text \<open>
  \<^verbatim>\<open>Get\<close> calls itself on \<^verbatim>\<open>e.outer\<close>; on a chain of \<^verbatim>\<open>outer\<close> links that runs
  in a cycle without the name it never returns, which is the value \<open>None\<close> here.
\<close>

partial_function (option) Get :: "heap \<Rightarrow> addr option \<Rightarrow> string \<Rightarrow> (panic + Object \<times> bool) option"
where
  "Get h e name =
     (case deref h e of
        Inl p \<Rightarrow> Some (Inl p)
      | Inr env \<Rightarrow>
          (case index_map (store env) name of
             (obj, ok) \<Rightarrow>
               if \<not> ok \<and> outer env \<noteq> None
               then Get h (outer env) name
               else Some (Inr (obj, ok))))"

text \<open>\<^verbatim>\<open>e.store[name] = val; return val\<close>\<close>

definition Set :: "heap \<Rightarrow> addr option \<Rightarrow> string \<Rightarrow> Object \<Rightarrow> panic + Object \<times> heap" where
  "Set h e name val =
     bind (deref h e) (\<lambda>env.
     case store env of
       None \<Rightarrow> Inl NilMapAssignment
     | Some m \<Rightarrow> Inr (val, h[the e := env\<lparr>store := Some (m(name \<mapsto> val))\<rparr>]))"

section \<open>The read loop (repl/repl.go)\<close>

text \<open>
  \<^verbatim>\<open>Start\<close> reads its input through a \<^verbatim>\<open>bufio.Scanner\<close>, which hands over one
  line per successful \<^verbatim>\<open>Scan\<close> and answers \<^verbatim>\<open>false\<close> once nothing more can be
  read: the input is the list of the lines the scanner delivers. Everything is printed
  with \<^verbatim>\<open>fmt.Printf\<close>, that is to the standard output (the parameter \<^verbatim>\<open>out\<close> is
  not used); the standard output is the list of the calls made so far, in order.

  Package \<^verbatim>\<open>lexer\<close> is not among the sources. \<^verbatim>\<open>Start\<close> uses it through
  \<^verbatim>\<open>lexer.New(line)\<close> and \<^verbatim>\<open>l.NextToken()\<close> only, so both are parameters here:
  \<open>new\<close> builds a lexer from a line, \<open>next\<close> returns the token together with the
  lexer as the call leaves it.
\<close>

definition PROMPT :: string where
  "PROMPT = ''>> ''"

datatype printed =
    Printf_string string  \<comment> \<open>\<^verbatim>\<open>fmt.Printf(PROMPT)\<close>\<close>
  | Printf_token token    \<comment> \<open>\<^verbatim>\<open>fmt.Printf("%+v\n", tok)\<close>\<close>

text \<open>
  \<^verbatim>\<open>for tok := l.NextToken(); tok.Type != token.EOF; tok = l.NextToken() { ... }\<close>.
  With a lexer that never produces the end-of-input token the loop does not end.
\<close>

partial_function (option) print_tokens ::
  "('l \<Rightarrow> token \<times> 'l) \<Rightarrow> 'l \<Rightarrow> printed list \<Rightarrow> printed list option"
where
  "print_tokens next l stdout =
     (case next l of
        (tok, l') \<Rightarrow>
          if Type tok \<noteq> EOF then print_tokens next l' (stdout @ [Printf_token tok])
          else Some stdout)"

text \<open>The outer loop: prompt, scan, return at the end of the input, else lex the line.\<close>

fun Start ::
  "(string \<Rightarrow> 'l) \<Rightarrow> ('l \<Rightarrow> token \<times> 'l) \<Rightarrow> string list \<Rightarrow> printed list \<Rightarrow> printed list option"
where
  "Start new next [] stdout = Some (stdout @ [Printf_string PROMPT])"
| "Start new next (line # rest) stdout =
     (case print_tokens next (new line) (stdout @ [Printf_string PROMPT]) of
        None \<Rightarrow> None
      | Some stdout' \<Rightarrow> Start new next rest stdout')"

subsection \<open>A lexer after the spec\<close>

text \<open>
  Modelled from the spec: the lexer of package \<^verbatim>\<open>lexer\<close>, which is not among the
  sources. Section 4.1 of the spec: skip whitespace; a letter starts a maximal run of
  letters, a keyword when it matches the keyword table exactly and an identifier
  otherwise; a digit starts a maximal run of digits, an integer literal; \<^verbatim>\<open>==\<close> and
  \<^verbatim>\<open>!=\<close> are recognised with one character of lookahead, the other operators and
  delimiters are single characters; any other character is an illegal token; once the
  source is exhausted every call returns the end-of-input token. The state of the lexer
  is the part of the source that is still to be read.
\<close>

type_synonym Lexer = string

definition isLetter :: "char \<Rightarrow> bool" where
  "isLetter c \<longleftrightarrow> c \<in> set ''abcdefghijklmnopqrstuvwxyzABCDEFGHIJKLMNOPQRSTUVWXYZ''"

definition isDigit :: "char \<Rightarrow> bool" where
  "isDigit c \<longleftrightarrow> c \<in> set ''0123456789''"

definition isWhitespace :: "char \<Rightarrow> bool" where
  "isWhitespace c \<longleftrightarrow> c \<in> set [CHR '' '', CHR 0x09, CHR 0x0A, CHR 0x0D]"

definition keyword_table :: "(string \<times> token_type) list" where
  "keyword_table =
     [(''fn'', FUNCTION), (''let'', LET), (''true'', TRUE), (''false'', FALSE),
      (''if'', IF), (''else'', ELSE), (''return'', RETURN)]"

definition LookupIdent :: "string \<Rightarrow> token_type" where
  "LookupIdent w = (case map_of keyword_table w of Some t \<Rightarrow> t | None \<Rightarrow> IDENT)"

definition single_character :: "(char \<times> token_type) list" where
  "single_character =
     [(CHR ''='', ASSIGN), (CHR ''+'', PLUS), (CHR ''-'', MINUS), (CHR ''!'', BANG),
      (CHR ''*'', ASTERISK), (CHR ''/'', SLASH), (CHR ''<'', LT), (CHR ''>'', GT),
      (CHR '','', COMMA), (CHR '';'', SEMICOLON), (CHR ''('', LPAREN), (CHR '')'', RPAREN),
      (CHR ''{'', LBRACE), (CHR ''}'', RBRACE)]"

definition lexer_New :: "string \<Rightarrow> Lexer" where
  "lexer_New input = input"

definition lexer_NextToken :: "Lexer \<Rightarrow> token \<times> Lexer" where
  "lexer_NextToken l =
     (case dropWhile isWhitespace l of
        [] \<Rightarrow> (\<lparr>Type = EOF, Literal = []\<rparr>, [])
      | c # cs \<Rightarrow>
          if isLetter c then
            (\<lparr>Type = LookupIdent (takeWhile isLetter (c # cs)),
              Literal = takeWhile isLetter (c # cs)\<rparr>,
             dropWhile isLetter (c # cs))
          else if isDigit c then
            (\<lparr>Type = INT', Literal = takeWhile isDigit (c # cs)\<rparr>, dropWhile isDigit (c # cs))
          else if c = CHR ''='' \<and> take 1 cs = ''='' then
            (\<lparr>Type = EQ, Literal = ''==''\<rparr>, drop 1 cs)
          else if c = CHR ''!'' \<and> take 1 cs = ''='' then
            (\<lparr>Type = NOT_EQ, Literal = ''!=''\<rparr>, drop 1 cs)
          else
            (\<lparr>Type = (case map_of single_character c of Some t \<Rightarrow> t | None \<Rightarrow> ILLEGAL),
              Literal = [c]\<rparr>,
             cs))"

section \<open>Notions used to state the properties\<close>

text \<open>The \<^verbatim>\<open>outer\<close> links of a heap as a relation between addresses.\<close>

definition outer_rel :: "heap \<Rightarrow> (addr \<times> addr) set" where
  "outer_rel h = {(a, b). a < length h \<and> outer (h ! a) = Some b}"

text \<open>
  \<open>outer_chain h e es\<close>: following \<^verbatim>\<open>outer\<close> from the environment at \<open>e\<close> visits
  the environments at the addresses \<open>es\<close>, innermost first, and ends at an environment
  whose \<^verbatim>\<open>outer\<close> is \<^verbatim>\<open>nil\<close>.
\<close>

inductive outer_chain :: "heap \<Rightarrow> addr \<Rightarrow> addr list \<Rightarrow> bool" for h :: heap where
  outermost: "a < length h \<Longrightarrow> outer (h ! a) = None \<Longrightarrow> outer_chain h a [a]"
| enclosed: "a < length h \<Longrightarrow> outer (h ! a) = Some b \<Longrightarrow> outer_chain h b bs \<Longrightarrow>
             outer_chain h a (a # bs)"

text \<open>The store of the environment at \<open>a\<close> contains the name, and the value bound there.\<close>

definition has_name :: "heap \<Rightarrow> string \<Rightarrow> addr \<Rightarrow> bool" where
  "has_name h name a = snd (index_map (store (h ! a)) name)"

definition bound_value :: "heap \<Rightarrow> string \<Rightarrow> addr \<Rightarrow> Object" where
  "bound_value h name a = fst (index_map (store (h ! a)) name)"

text \<open>Every \<^verbatim>\<open>outer\<close> pointer of the heap points into the heap.\<close>

definition closed_heap :: "heap \<Rightarrow> bool" where
  "closed_heap h \<longleftrightarrow> (\<forall>a < length h. \<forall>b. outer (h ! a) = Some b \<longrightarrow> b < length h)"

text \<open>
  Two heaps agree on a set of addresses that is closed under \<^verbatim>\<open>outer\<close>.
\<close>

definition agree_on :: "addr set \<Rightarrow> heap \<Rightarrow> heap \<Rightarrow> bool" where
  "agree_on A h1 h2 \<longleftrightarrow>
     (\<forall>a \<in> A. a < length h1 \<and> a < length h2 \<and> h1 ! a = h2 ! a \<and>
        (\<forall>b. outer (h1 ! a) = Some b \<longrightarrow> b \<in> A))"

text \<open>
  What holds of every heap built with \<^verbatim>\<open>NewEnvironment\<close>,
  \<^verbatim>\<open>NewEnclosedEnvironment\<close> and \<^verbatim>\<open>Set\<close>: every store is allocated and every
  \<^verbatim>\<open>outer\<close> pointer leads to an older environment.
\<close>

definition heap_inv :: "heap \<Rightarrow> bool" where
  "heap_inv h \<longleftrightarrow>
     (\<forall>a < length h. store (h ! a) \<noteq> None \<and> (\<forall>b. outer (h ! a) = Some b \<longrightarrow> b < a))"

text \<open>
  \<open>token_stream next l ts\<close>: the tokens the lexer \<open>l\<close> produces before its first
  end-of-input token are \<open>ts\<close>.
\<close>

inductive token_stream :: "('l \<Rightarrow> token \<times> 'l) \<Rightarrow> 'l \<Rightarrow> token list \<Rightarrow> bool"
  for "next" :: "'l \<Rightarrow> token \<times> 'l"
where
  at_EOF: "Type (fst (next l)) = EOF \<Longrightarrow> token_stream next l []"
| before_EOF: "next l = (tok, l') \<Longrightarrow> Type tok \<noteq> EOF \<Longrightarrow> token_stream next l' ts \<Longrightarrow>
               token_stream next l (tok # ts)"

text \<open>
  A heap with two environments for the examples: the global one at address 0 binds
  \<^verbatim>\<open>x\<close> to 1 and \<^verbatim>\<open>y\<close> to 2, the one at address 1 is enclosed by it and binds
  \<^verbatim>\<open>x\<close> to 5.
\<close>

definition two_scopes :: heap where
  "two_scopes =
     [\<lparr>store = Some [''x'' \<mapsto> Some (Integer 1), ''y'' \<mapsto> Some (Integer 2)], outer = None\<rparr>,
      \<lparr>store = Some [''x'' \<mapsto> Some (Integer 5)], outer = Some 0\<rparr>]"








text \<open>What may follow a rendering inside another one: nothing, or no letter and no digit.\<close>

definition boundary :: "string \<Rightarrow> bool" where
  "boundary r \<longleftrightarrow> r = [] \<or> \<not> isLetter (hd r) \<and> \<not> isDigit (hd r)"







section \<open>Environments: properties\<close>

subsection \<open>Reading the heap\<close>

lemma deref_Some: "a < length h \<Longrightarrow> deref h (Some a) = Inr (h ! a)"
  by (simp add: deref_def)

lemma deref_invalid: "\<not> a < length h \<Longrightarrow> deref h (Some a) = Inl NilPointerDereference"
  by (simp add: deref_def)

lemma deref_None: "deref h None = Inl NilPointerDereference"
  by (simp add: deref_def)

lemma index_map_pair:
  "index_map (store (h ! a)) name = (bound_value h name a, has_name h name a)"
  by (simp add: bound_value_def has_name_def)

lemma bound_value_absent: "\<not> has_name h name a \<Longrightarrow> bound_value h name a = None"
  by (auto simp: bound_value_def has_name_def index_map_def split: option.splits)

lemma has_name_iff:
  "has_name h name a \<longleftrightarrow> (\<exists>m v. store (h ! a) = Some m \<and> m name = Some v)"
  by (auto simp: has_name_def index_map_def split: option.splits)

lemma bound_value_eq:
  "store (h ! a) = Some m \<Longrightarrow> m name = Some v \<Longrightarrow> bound_value h name a = v"
  by (simp add: bound_value_def index_map_def)

subsection \<open>One step of Get\<close>

lemma Get_nil: "Get h None name = Some (Inl NilPointerDereference)"
  by (subst Get.simps) (simp add: deref_None)

lemma Get_invalid: "\<not> a < length h \<Longrightarrow> Get h (Some a) name = Some (Inl NilPointerDereference)"
  by (subst Get.simps) (simp add: deref_invalid)

lemma Get_unfold:
  "a < length h \<Longrightarrow>
   Get h (Some a) name =
     (if \<not> has_name h name a \<and> outer (h ! a) \<noteq> None then Get h (outer (h ! a)) name
      else Some (Inr (bound_value h name a, has_name h name a)))"
  by (subst Get.simps) (simp add: deref_Some index_map_pair)

lemma Get_found:
  "a < length h \<Longrightarrow> has_name h name a \<Longrightarrow>
   Get h (Some a) name = Some (Inr (bound_value h name a, True))"
  by (simp add: Get_unfold)

lemma Get_outermost:
  "a < length h \<Longrightarrow> \<not> has_name h name a \<Longrightarrow> outer (h ! a) = None \<Longrightarrow>
   Get h (Some a) name = Some (Inr (None, False))"
  by (simp add: Get_unfold bound_value_absent)

lemma Get_outward:
  "a < length h \<Longrightarrow> \<not> has_name h name a \<Longrightarrow> outer (h ! a) = Some b \<Longrightarrow>
   Get h (Some a) name = Get h (Some b) name"
  by (simp add: Get_unfold)

subsection \<open>Get along a chain\<close>

lemma Get_outer_chain:
  "outer_chain h e es \<Longrightarrow>
   Get h (Some e) name =
     Some (Inr (case find (has_name h name) es of
                  None \<Rightarrow> (None, False)
                | Some a \<Rightarrow> (bound_value h name a, True)))"
proof (induction rule: outer_chain.induct)
  case (outermost a)
  then show ?case
    by (cases "has_name h name a") (simp_all add: Get_found Get_outermost)
next
  case (enclosed a b bs)
  then show ?case
    by (cases "has_name h name a") (simp_all add: Get_found Get_outward)
qed

subsection \<open>Get returns on a heap without cycles\<close>

lemma finite_outer_rel: "finite (outer_rel h)"
proof -
  have "outer_rel h \<subseteq> (\<lambda>a. (a, the (outer (h ! a)))) ` {..<length h}"
    by (auto simp: outer_rel_def image_iff)
  then show ?thesis
    by (rule finite_subset) simp
qed

lemma Get_returns_wf:
  assumes "wf ((outer_rel h)\<inverse>)"
  shows "\<exists>r. Get h (Some a) name = Some r"
  using assms
proof (induction a rule: wf_induct_rule)
  case (less a)
  show ?case
  proof (cases "a < length h")
    case False
    then show ?thesis
      by (simp add: Get_invalid)
  next
    case valid: True
    show ?thesis
    proof (cases "\<not> has_name h name a \<and> outer (h ! a) \<noteq> None")
      case False
      with valid show ?thesis
        by (auto simp: Get_unfold)
    next
      case True
      then obtain b where b: "outer (h ! a) = Some b"
        by auto
      with valid have "(b, a) \<in> (outer_rel h)\<inverse>"
        by (simp add: outer_rel_def)
      then have "\<exists>r. Get h (Some b) name = Some r"
        by (rule less.IH)
      with valid True b show ?thesis
        by (simp add: Get_unfold)
    qed
  qed
qed

lemma Get_returns:
  assumes "acyclic (outer_rel h)"
  shows "\<exists>r. Get h e name = Some r"
proof (cases e)
  case None
  then show ?thesis
    by (simp add: Get_nil)
next
  case (Some a)
  from finite_outer_rel assms have "wf ((outer_rel h)\<inverse>)"
    by (rule finite_acyclic_wf_converse)
  then show ?thesis
    unfolding Some by (rule Get_returns_wf)
qed

text \<open>
  The hypothesis is needed: on an environment that is its own \<^verbatim>\<open>outer\<close>, \<^verbatim>\<open>Get\<close>
  of a name it does not bind never returns.
\<close>

lemma Get_cycle_aux:
  assumes "Get h e name = Some r"
  shows "h = [\<lparr>store = Some Map.empty, outer = Some 0\<rparr>] \<longrightarrow> e = Some 0 \<longrightarrow> False"
  by (rule Get.raw_induct
        [where P = "\<lambda>h e name r.
            h = [\<lparr>store = Some Map.empty, outer = Some 0\<rparr>] \<longrightarrow> e = Some 0 \<longrightarrow> False",
         OF _ assms])
     (clarsimp simp: deref_def index_map_def, blast)

lemma Get_cycle_diverges:
  "Get [\<lparr>store = Some Map.empty, outer = Some 0\<rparr>] (Some 0) name = None"
  using Get_cycle_aux [of "[\<lparr>store = Some Map.empty, outer = Some 0\<rparr>]" "Some 0" name]
  by (cases "Get [\<lparr>store = Some Map.empty, outer = Some 0\<rparr>] (Some 0) name") auto

subsection \<open>Get reads the chain only\<close>

lemma agree_on_sym: "agree_on A h1 h2 \<Longrightarrow> agree_on A h2 h1"
  by (simp add: agree_on_def)

lemma Get_agree_Some:
  assumes "Get h e name = Some r"
  shows "\<forall>a. h = h1 \<longrightarrow> agree_on A h1 h2 \<longrightarrow> e = Some a \<longrightarrow> a \<in> A \<longrightarrow>
           Get h2 (Some a) name = Some r"
proof (rule Get.raw_induct
        [where P = "\<lambda>h e name r. \<forall>a. h = h1 \<longrightarrow> agree_on A h1 h2 \<longrightarrow> e = Some a \<longrightarrow> a \<in> A \<longrightarrow>
           Get h2 (Some a) name = Some r",
         OF _ assms], intro impI allI)
  fix G h e name r a
  assume IH: "\<And>h e name r. G h e name = Some r \<Longrightarrow>
           \<forall>a. h = h1 \<longrightarrow> agree_on A h1 h2 \<longrightarrow> e = Some a \<longrightarrow> a \<in> A \<longrightarrow>
             Get h2 (Some a) name = Some r"
    and body: "(case deref h e of Inl p \<Rightarrow> Some (Inl p)
      | Inr env \<Rightarrow>
          case index_map (store env) name of
          (obj, ok) \<Rightarrow>
            if \<not> ok \<and> outer env \<noteq> None then G h (outer env) name
            else Some (Inr (obj, ok))) = Some r"
    and h: "h = h1" and ag: "agree_on A h1 h2" and e: "e = Some a" and a: "a \<in> A"
  from ag a have a1: "a < length h1" and a2: "a < length h2" and nth: "h2 ! a = h1 ! a"
    by (simp_all add: agree_on_def)
  have same: "has_name h2 name a = has_name h1 name a"
    "bound_value h2 name a = bound_value h1 name a"
    by (simp_all add: has_name_def bound_value_def nth)
  show "Get h2 (Some a) name = Some r"
  proof (cases "\<not> has_name h1 name a \<and> outer (h1 ! a) \<noteq> None")
    case False
    with body h e a1 have "r = Inr (bound_value h1 name a, has_name h1 name a)"
      by (auto simp: deref_Some index_map_pair)
    with False nth same show ?thesis
      by (subst Get_unfold [OF a2]) auto
  next
    case True
    then obtain b where b: "outer (h1 ! a) = Some b"
      by auto
    with ag a have "b \<in> A"
      by (auto simp: agree_on_def)
    moreover from body h e a1 True b have "G h1 (Some b) name = Some r"
      by (simp add: deref_Some index_map_pair)
    ultimately have "Get h2 (Some b) name = Some r"
      using IH ag by blast
    with True nth b same show ?thesis
      by (subst Get_unfold [OF a2]) auto
  qed
qed

lemma Get_agree:
  assumes "agree_on A h1 h2" and "a \<in> A"
  shows "Get h1 (Some a) name = Get h2 (Some a) name"
proof (cases "Get h1 (Some a) name")
  case (Some r)
  with Get_agree_Some [OF Some, of h1 A h2] assms show ?thesis
    by simp
next
  case None
  show ?thesis
  proof (cases "Get h2 (Some a) name")
    case (Some r)
    with Get_agree_Some [OF Some, of h2 A h1] agree_on_sym [OF assms(1)] assms(2) None
    show ?thesis by simp
  next
    case None': None
    with None show ?thesis by simp
  qed
qed

lemma agree_on_append: "closed_heap h \<Longrightarrow> agree_on {..<length h} (h @ hs) h"
  by (auto simp: agree_on_def closed_heap_def nth_append)

lemma Get_append:
  "closed_heap h \<Longrightarrow> a < length h \<Longrightarrow> Get (h @ hs) (Some a) name = Get h (Some a) name"
  by (rule Get_agree [OF agree_on_append]) simp_all

subsection \<open>The constructors and Set\<close>

lemma NewEnvironment_eq:
  "NewEnvironment h = (Some (length h), h @ [\<lparr>store = Some Map.empty, outer = None\<rparr>])"
  by (simp add: NewEnvironment_def)

lemma NewEnclosedEnvironment_eq:
  "NewEnclosedEnvironment h outer' =
     Inr (Some (length h), h @ [\<lparr>store = Some Map.empty, outer = outer'\<rparr>])"
  by (simp add: NewEnclosedEnvironment_def NewEnvironment_def deref_def)

lemma Set_eq:
  "e < length h \<Longrightarrow> store (h ! e) = Some m \<Longrightarrow>
   Set h (Some e) name val = Inr (val, h[e := (h ! e)\<lparr>store := Some (m(name \<mapsto> val))\<rparr>])"
  by (simp add: Set_def deref_def)

lemma Set_nil_map:
  "e < length h \<Longrightarrow> store (h ! e) = None \<Longrightarrow> Set h (Some e) name val = Inl NilMapAssignment"
  by (simp add: Set_def deref_def)

lemma Set_nil: "Set h None name val = Inl NilPointerDereference"
  by (simp add: Set_def deref_def)

subsection \<open>The invariant of the heaps the package builds\<close>

lemma heap_inv_Nil: "heap_inv []"
  by (simp add: heap_inv_def)

lemma heap_inv_NewEnvironment: "heap_inv h \<Longrightarrow> heap_inv (snd (NewEnvironment h))"
  by (auto simp: heap_inv_def NewEnvironment_def nth_append less_Suc_eq split: if_splits)

lemma heap_inv_NewEnclosedEnvironment:
  "heap_inv h \<Longrightarrow> outer' = None \<or> (\<exists>b < length h. outer' = Some b) \<Longrightarrow>
   NewEnclosedEnvironment h outer' = Inr (e, h') \<Longrightarrow> heap_inv h'"
  by (auto simp: heap_inv_def NewEnclosedEnvironment_eq nth_append less_Suc_eq split: if_splits)

lemma heap_inv_Set:
  "heap_inv h \<Longrightarrow> Set h e name val = Inr (v, h') \<Longrightarrow> heap_inv h'"
  by (cases e)
     (auto simp: heap_inv_def Set_def deref_def nth_list_update split: if_splits option.splits)

lemma heap_inv_closed: "heap_inv h \<Longrightarrow> closed_heap h"
  by (fastforce simp: heap_inv_def closed_heap_def)

lemma heap_inv_acyclic: "heap_inv h \<Longrightarrow> acyclic (outer_rel h)"
proof -
  assume "heap_inv h"
  then have "outer_rel h \<subseteq> {(a, b). b < a}"
    by (auto simp: heap_inv_def outer_rel_def)
  moreover have "acyclic {(a :: nat, b). b < a}"
    using wf_less [THEN wf_acyclic, THEN acyclic_converse [THEN iffD2]]
    by (simp add: converse_unfold)
  ultimately show ?thesis
    by (rule acyclic_subset [rotated])
qed

lemma heap_inv_allocated: "heap_inv h \<Longrightarrow> a < length h \<Longrightarrow> \<exists>m. store (h ! a) = Some m"
  by (auto simp: heap_inv_def)

lemma heap_inv_two_scopes: "heap_inv two_scopes"
  by (simp add: heap_inv_def two_scopes_def less_Suc_eq numeral_2_eq_2 nth_Cons')

lemma outer_chain_two_scopes: "outer_chain two_scopes 1 [1, 0]"
  by (rule outer_chain.enclosed [where b = 0], simp_all add: two_scopes_def)
     (rule outer_chain.outermost, simp_all)

subsection \<open>The claims about environments\<close>

text \<open>
  C1. For every chain of environments linked through \<^verbatim>\<open>outer\<close> and every name,
  \<^verbatim>\<open>Get\<close> returns the value bound in the nearest environment of the chain whose store
  contains the name, together with \<^verbatim>\<open>true\<close>; when no environment of the chain
  contains the name it returns \<^verbatim>\<open>nil\<close> with \<^verbatim>\<open>false\<close>. The chain \<open>es\<close> lists
  the environments innermost first, so the nearest one with the name is the first
  element of \<open>es\<close> that has it.
\<close>

theorem Get_nearest_binding:
  assumes "outer_chain h e es"
  shows "Get h (Some e) name =
           Some (Inr (case find (has_name h name) es of
                        None \<Rightarrow> (None, False)
                      | Some a \<Rightarrow> (bound_value h name a, True)))"
  using assms by (rule Get_outer_chain)

theorem Get_nearest_binding_witness:
  "outer_chain two_scopes 1 [1, 0] \<and>
   Get two_scopes (Some 1) ''x'' = Some (Inr (Some (Integer 5), True)) \<and>
   Get two_scopes (Some 1) ''y'' = Some (Inr (Some (Integer 2), True)) \<and>
   Get two_scopes (Some 1) ''z'' = Some (Inr (None, False))"
  using Get_nearest_binding [OF outer_chain_two_scopes, of "''x''"]
    Get_nearest_binding [OF outer_chain_two_scopes, of "''y''"]
    Get_nearest_binding [OF outer_chain_two_scopes, of "''z''"]
    outer_chain_two_scopes
  by (simp add: has_name_def bound_value_def index_map_def two_scopes_def)

text \<open>
  C3. Inner bindings shadow outer ones. After \<^verbatim>\<open>e.Set(name, v)\<close> on an environment
  with an allocated store, \<^verbatim>\<open>e.Get(name)\<close> returns \<^verbatim>\<open>(v, true)\<close>, whatever the
  enclosing environments bind (nothing is assumed about them). A name the inner store
  contains is answered from the inner store; only when the inner store lacks the name
  does \<^verbatim>\<open>Get\<close> answer what \<^verbatim>\<open>Get\<close> on the enclosing environment answers.
\<close>

theorem inner_binding_shadows_outer:
  "(e < length h \<and> store (h ! e) \<noteq> None \<longrightarrow>
      (\<exists>h'. Set h (Some e) name v = Inr (v, h') \<and>
            Get h' (Some e) name = Some (Inr (v, True)))) \<and>
   (e < length h \<and> has_name h name e \<longrightarrow>
      Get h (Some e) name = Some (Inr (bound_value h name e, True))) \<and>
   (e < length h \<and> \<not> has_name h name e \<and> outer (h ! e) = Some b \<longrightarrow>
      Get h (Some e) name = Get h (Some b) name)"
proof (intro conjI impI)
  assume "e < length h \<and> store (h ! e) \<noteq> None"
  then obtain m where e: "e < length h" and m: "store (h ! e) = Some m"
    by auto
  let ?h' = "h[e := (h ! e)\<lparr>store := Some (m(name \<mapsto> v))\<rparr>]"
  from e have "e < length ?h'"
    by simp
  moreover from e have "has_name ?h' name e" and "bound_value ?h' name e = v"
    by (simp_all add: has_name_def bound_value_def index_map_def)
  ultimately have "Get ?h' (Some e) name = Some (Inr (v, True))"
    by (simp add: Get_found)
  with e m show "\<exists>h'. Set h (Some e) name v = Inr (v, h') \<and>
      Get h' (Some e) name = Some (Inr (v, True))"
    by (simp add: Set_eq)
next
  assume "e < length h \<and> has_name h name e"
  then show "Get h (Some e) name = Some (Inr (bound_value h name e, True))"
    by (simp add: Get_found)
next
  assume "e < length h \<and> \<not> has_name h name e \<and> outer (h ! e) = Some b"
  then show "Get h (Some e) name = Get h (Some b) name"
    by (simp add: Get_outward)
qed

theorem inner_binding_shadows_outer_witness:
  "1 < length two_scopes \<and> store (two_scopes ! 1) \<noteq> None \<and>
   has_name two_scopes ''x'' 0 \<and> has_name two_scopes ''x'' 1 \<and>
   \<not> has_name two_scopes ''y'' 1 \<and> outer (two_scopes ! 1) = Some 0 \<and>
   (\<exists>h'. Set two_scopes (Some 1) ''x'' (Some (Integer 7)) = Inr (Some (Integer 7), h') \<and>
         Get h' (Some 1) ''x'' = Some (Inr (Some (Integer 7), True))) \<and>
   Get two_scopes (Some 1) ''x'' = Some (Inr (Some (Integer 5), True)) \<and>
   Get two_scopes (Some 1) ''y'' = Get two_scopes (Some 0) ''y''"
  using inner_binding_shadows_outer [of 1 two_scopes "''x''" "Some (Integer 7)" 0]
    inner_binding_shadows_outer [of 1 two_scopes "''y''" "Some (Integer 7)" 0]
  by (simp add: has_name_def bound_value_def index_map_def two_scopes_def)

text \<open>
  C4. \<^verbatim>\<open>NewEnclosedEnvironment(outer)\<close> returns a fresh environment (an address that
  was not in use, every older environment left as it was) whose store is empty and whose
  \<^verbatim>\<open>outer\<close> is the given pointer. So, when an environment is given, \<^verbatim>\<open>Get\<close> on the
  new one answers, for every name, what \<^verbatim>\<open>Get\<close> on the given one answers, after the
  call and, in a heap without dangling pointers, also before it. \<^verbatim>\<open>NewEnvironment\<close>
  does the same with \<^verbatim>\<open>outer\<close> left \<^verbatim>\<open>nil\<close>.
\<close>

theorem NewEnclosedEnvironment_fresh:
  "\<exists>e' h'. NewEnclosedEnvironment h outer' = Inr (Some e', h') \<and>
     e' = length h \<and> length h' = Suc (length h) \<and> take (length h) h' = h \<and>
     store (h' ! e') = Some Map.empty \<and> outer (h' ! e') = outer' \<and>
     NewEnvironment h = (Some e', h @ [\<lparr>store = Some Map.empty, outer = None\<rparr>]) \<and>
     (\<forall>b name. outer' = Some b \<longrightarrow> Get h' (Some e') name = Get h' (Some b) name) \<and>
     (\<forall>b name. outer' = Some b \<and> b < length h \<and> closed_heap h \<longrightarrow>
        Get h' (Some e') name = Get h (Some b) name)"
proof -
  let ?h' = "h @ [\<lparr>store = Some Map.empty, outer = outer'\<rparr>]"
  have new: "\<And>b name. Get (h @ [\<lparr>store = Some Map.empty, outer = Some b\<rparr>]) (Some (length h)) name =
      Get (h @ [\<lparr>store = Some Map.empty, outer = Some b\<rparr>]) (Some b) name"
    by (subst Get.simps) (simp add: deref_def index_map_def)
  have "NewEnclosedEnvironment h outer' = Inr (Some (length h), ?h')"
    by (rule NewEnclosedEnvironment_eq)
  moreover have "NewEnvironment h =
      (Some (length h), h @ [\<lparr>store = Some Map.empty, outer = None\<rparr>])"
    by (rule NewEnvironment_eq)
  moreover have "\<forall>b name. outer' = Some b \<longrightarrow>
      Get ?h' (Some (length h)) name = Get ?h' (Some b) name"
    using new by simp
  moreover have "\<forall>b name. outer' = Some b \<and> b < length h \<and> closed_heap h \<longrightarrow>
      Get ?h' (Some (length h)) name = Get h (Some b) name"
    using new by (simp add: Get_append)
  ultimately show ?thesis
    by simp
qed

theorem NewEnclosedEnvironment_fresh_witness:
  "closed_heap two_scopes \<and> 1 < length two_scopes \<and>
   (\<exists>h'. NewEnclosedEnvironment two_scopes (Some 1) = Inr (Some 2, h') \<and>
      store (h' ! 2) = Some Map.empty \<and> outer (h' ! 2) = Some 1 \<and>
      Get h' (Some 2) ''y'' = Get h' (Some 1) ''y'' \<and>
      Get h' (Some 2) ''y'' = Get two_scopes (Some 1) ''y'')"
proof -
  have "closed_heap two_scopes"
    by (rule heap_inv_closed [OF heap_inv_two_scopes])
  moreover have "length two_scopes = 2"
    by (simp add: two_scopes_def)
  ultimately show ?thesis
    using NewEnclosedEnvironment_fresh [of two_scopes "Some 1"]
    by auto
qed

text \<open>
  C7. When the \<^verbatim>\<open>outer\<close> links of the heap are acyclic, \<^verbatim>\<open>Get\<close> returns (a
  result or the panic of a \<^verbatim>\<open>nil\<close> receiver) for every environment pointer and
  every name. The heap is finite, so its environments then form a forest.
\<close>

theorem Get_terminates_acyclic:
  assumes "acyclic (outer_rel h)"
  shows "\<exists>r. Get h e name = Some r"
  using assms by (rule Get_returns)

theorem Get_terminates_acyclic_witness:
  "acyclic (outer_rel two_scopes) \<and> (\<exists>r. Get two_scopes (Some 1) ''z'' = Some r)"
  using Get_terminates_acyclic [OF heap_inv_acyclic [OF heap_inv_two_scopes], of "Some 1" "''z''"]
    heap_inv_acyclic [OF heap_inv_two_scopes]
  by simp

text \<open>
  C8. On an environment with an allocated store, \<^verbatim>\<open>e.Set(n, v)\<close> returns \<^verbatim>\<open>v\<close>
  and changes nothing but the entry for \<^verbatim>\<open>n\<close> in the store of \<^verbatim>\<open>e\<close>: no
  environment is added or removed, every other environment is left as it was, the
  \<^verbatim>\<open>outer\<close> of \<^verbatim>\<open>e\<close> and its bindings for the other names are unchanged. The
  environments reached through the \<^verbatim>\<open>outer\<close> chain of \<^verbatim>\<open>e\<close> are other
  environments as long as the chain does not lead back to \<^verbatim>\<open>e\<close>, as in every
  heap without cycles.
\<close>

theorem Set_changes_one_entry:
  assumes "e < length h" and "store (h ! e) = Some m"
  shows "\<exists>h'. Set h (Some e) n v = Inr (v, h') \<and>
     length h' = length h \<and>
     (\<forall>a. a \<noteq> e \<longrightarrow> h' ! a = h ! a) \<and>
     outer (h' ! e) = outer (h ! e) \<and>
     store (h' ! e) = Some (m(n \<mapsto> v)) \<and>
     (\<forall>k. k \<noteq> n \<longrightarrow> index_map (store (h' ! e)) k = index_map (store (h ! e)) k) \<and>
     index_map (store (h' ! e)) n = (v, True) \<and>
     (\<forall>a. (e, a) \<in> (outer_rel h)\<^sup>+ \<and> (e, e) \<notin> (outer_rel h)\<^sup>+ \<longrightarrow> h' ! a = h ! a) \<and>
     (acyclic (outer_rel h) \<longrightarrow> (\<forall>a. (e, a) \<in> (outer_rel h)\<^sup>+ \<longrightarrow> store (h' ! a) = store (h ! a)))"
proof -
  let ?h' = "h[e := (h ! e)\<lparr>store := Some (m(n \<mapsto> v))\<rparr>]"
  have "Set h (Some e) n v = Inr (v, ?h')"
    using assms by (rule Set_eq)
  moreover have "\<forall>a. a \<noteq> e \<longrightarrow> ?h' ! a = h ! a"
    by simp
  moreover have "outer (?h' ! e) = outer (h ! e)" "store (?h' ! e) = Some (m(n \<mapsto> v))"
    using assms by simp_all
  moreover have "\<forall>k. k \<noteq> n \<longrightarrow> index_map (store (?h' ! e)) k = index_map (store (h ! e)) k"
    using assms by (simp add: index_map_def)
  moreover have "index_map (store (?h' ! e)) n = (v, True)"
    using assms by (simp add: index_map_def)
  moreover have "\<forall>a. (e, a) \<in> (outer_rel h)\<^sup>+ \<and> (e, e) \<notin> (outer_rel h)\<^sup>+ \<longrightarrow> ?h' ! a = h ! a"
    by (metis nth_list_update_neq)
  moreover have "acyclic (outer_rel h) \<longrightarrow>
      (\<forall>a. (e, a) \<in> (outer_rel h)\<^sup>+ \<longrightarrow> store (?h' ! a) = store (h ! a))"
    unfolding acyclic_def by (metis nth_list_update_neq)
  ultimately show ?thesis
    by simp
qed

theorem Set_changes_one_entry_witness:
  "1 < length two_scopes \<and>
   store (two_scopes ! 1) = Some [''x'' \<mapsto> Some (Integer 5)] \<and>
   acyclic (outer_rel two_scopes) \<and> (1, 0) \<in> (outer_rel two_scopes)\<^sup>+ \<and>
   (\<exists>h'. Set two_scopes (Some 1) ''x'' (Some (Integer 7)) = Inr (Some (Integer 7), h') \<and>
      length h' = 2 \<and> h' ! 0 = two_scopes ! 0 \<and> outer (h' ! 1) = Some 0 \<and>
      index_map (store (h' ! 1)) ''x'' = (Some (Integer 7), True) \<and>
      index_map (store (h' ! 1)) ''y'' = (None, False) \<and>
      store (h' ! 0) = store (two_scopes ! 0))"
proof -
  have len: "1 < length two_scopes"
    and st: "store (two_scopes ! 1) = Some [''x'' \<mapsto> Some (Integer 5)]"
    by (simp_all add: two_scopes_def)
  have ac: "acyclic (outer_rel two_scopes)"
    by (rule heap_inv_acyclic [OF heap_inv_two_scopes])
  have reach: "(1, 0) \<in> (outer_rel two_scopes)\<^sup>+"
    by (rule r_into_trancl) (simp add: outer_rel_def two_scopes_def)
  from Set_changes_one_entry [OF len st, of "''x''" "Some (Integer 7)"]
  obtain h' where h': "Set two_scopes (Some 1) ''x'' (Some (Integer 7)) = Inr (Some (Integer 7), h')"
    "length h' = length two_scopes" "\<forall>a. a \<noteq> 1 \<longrightarrow> h' ! a = two_scopes ! a"
    "outer (h' ! 1) = outer (two_scopes ! 1)"
    "\<forall>k. k \<noteq> ''x'' \<longrightarrow> index_map (store (h' ! 1)) k = index_map (store (two_scopes ! 1)) k"
    "index_map (store (h' ! 1)) ''x'' = (Some (Integer 7), True)"
    "acyclic (outer_rel two_scopes) \<longrightarrow>
       (\<forall>a. (1, a) \<in> (outer_rel two_scopes)\<^sup>+ \<longrightarrow> store (h' ! a) = store (two_scopes ! a))"
    by blast
  have "index_map (store (two_scopes ! 1)) ''y'' = (None, False)"
    by (simp add: two_scopes_def index_map_def)
  with h'(5) have "index_map (store (h' ! 1)) ''y'' = (None, False)"
    by simp
  moreover from h'(7) ac reach have "store (h' ! 0) = store (two_scopes ! 0)"
    by blast
  moreover from h'(2) have "length h' = 2"
    by (simp add: two_scopes_def)
  moreover from h'(4) have "outer (h' ! 1) = Some 0"
    by (simp add: two_scopes_def)
  moreover from h'(3) have "h' ! 0 = two_scopes ! 0"
    by simp
  ultimately show ?thesis
    using len st ac reach h'(1) h'(6) by blast
qed

section \<open>The AST: properties\<close>

subsection \<open>TokenLiteral\<close>

lemma TokenLiteral_Identifier_Token:
  "TokenLiteral_Identifier (Some i) = Inr (Literal (Token_Identifier i))"
  by (cases i) simp

lemma TokenLiteral_block_statement_Token:
  "TokenLiteral_block_statement (Some b) = Inr (Literal (Token_block_statement b))"
  by (cases b) simp

lemma TokenLiteral_expression_Token:
  "TokenLiteral_expression (Some e) = Inr (Literal (Token_expression e))"
  by (cases e) (simp_all add: TokenLiteral_Identifier_Token)

lemma TokenLiteral_statement_Token:
  "TokenLiteral_statement (Some s) = Inr (Literal (Token_statement s))"
  by (cases s) (simp_all add: TokenLiteral_block_statement_Token)

text \<open>
  C2, as stated: every AST node variant retains the token that introduced it, and its
  \<^verbatim>\<open>TokenLiteral\<close> returns the literal of that token. The program node is a
  variant without a token: for the program without statements there is no token at all,
  and \<^verbatim>\<open>TokenLiteral\<close> returns the empty string.
\<close>

theorem Program_has_no_token:
  "Token_Node (Node_program (Program [])) = None \<and>
   TokenLiteral_Node (Node_program (Program [])) = Inr '''' \<and>
   \<not> (\<exists>tok. Token_Node (Node_program (Program [])) = Some tok \<and>
          TokenLiteral_Node (Node_program (Program [])) = Inr (Literal tok))"
  by simp

text \<open>
  C2, amended: every statement and every expression node (identifiers and blocks
  included) retains the token that introduced it, and its \<^verbatim>\<open>TokenLiteral\<close>
  returns the literal of that token. The program node holds no token: its
  \<^verbatim>\<open>TokenLiteral\<close> is the empty string when it has no statements, and what
  \<^verbatim>\<open>TokenLiteral\<close> of its first statement returns otherwise (the literal of that
  statement's token).
\<close>

theorem TokenLiteral_returns_token_literal:
  "Token_Node (Node_statement s) = Some (Token_statement s) \<and>
   TokenLiteral_Node (Node_statement s) = Inr (Literal (Token_statement s)) \<and>
   Token_Node (Node_expression e) = Some (Token_expression e) \<and>
   TokenLiteral_Node (Node_expression e) = Inr (Literal (Token_expression e)) \<and>
   TokenLiteral_Identifier (Some i) = Inr (Literal (Token_Identifier i)) \<and>
   TokenLiteral_block_statement (Some b) = Inr (Literal (Token_block_statement b)) \<and>
   Token_Node (Node_program p) = None \<and>
   TokenLiteral_Node (Node_program (Program [])) = Inr '''' \<and>
   TokenLiteral_Node (Node_program (Program (s' # ss))) = TokenLiteral_statement s' \<and>
   TokenLiteral_Node (Node_program (Program (Some s # ss))) = Inr (Literal (Token_statement s))"
  by (simp add: TokenLiteral_Identifier_Token TokenLiteral_block_statement_Token
      TokenLiteral_expression_Token TokenLiteral_statement_Token)

theorem TokenLiteral_returns_token_literal_witness:
  "TokenLiteral_Node (Node_statement
      (LetStatement \<lparr>Type = LET, Literal = ''let''\<rparr>
         (Some (Identifier \<lparr>Type = IDENT, Literal = ''x''\<rparr> ''x'')) None)) = Inr ''let'' \<and>
   TokenLiteral_Node (Node_expression
      (Identifier_expr (Identifier \<lparr>Type = IDENT, Literal = ''x''\<rparr> ''x''))) = Inr ''x'' \<and>
   TokenLiteral_Node (Node_program (Program
      [Some (ReturnStatement \<lparr>Type = RETURN, Literal = ''return''\<rparr> None)])) = Inr ''return''"
  using TokenLiteral_returns_token_literal
    [of "LetStatement \<lparr>Type = LET, Literal = ''let''\<rparr>
           (Some (Identifier \<lparr>Type = IDENT, Literal = ''x''\<rparr> ''x'')) None"
        "Identifier_expr (Identifier \<lparr>Type = IDENT, Literal = ''x''\<rparr> ''x'')"]
    TokenLiteral_returns_token_literal
    [of "ReturnStatement \<lparr>Type = RETURN, Literal = ''return''\<rparr> None" _ _ _ _ _ "[]"]
  by simp

subsection \<open>String with absent children\<close>

text \<open>
  C10. A let statement without a value renders as its token literal (\<^verbatim>\<open>let\<close> for
  the token of a let statement), a space, the name and \<^verbatim>\<open> = ;\<close>; a return statement
  without a value as its token literal (\<^verbatim>\<open>return\<close>) and \<^verbatim>\<open> ;\<close>; an expression
  statement without an expression as the empty string. None of them fails.
\<close>

theorem String_without_optional_child:
  "String_statement (Some (LetStatement tok (Some (Identifier ntok name)) None)) =
     Inr (Literal tok @ '' '' @ name @ '' = ;'') \<and>
   (Literal tok = ''let'' \<longrightarrow>
      String_statement (Some (LetStatement tok (Some (Identifier ntok name)) None)) =
        Inr (''let '' @ name @ '' = ;'')) \<and>
   String_statement (Some (ReturnStatement tok None)) = Inr (Literal tok @ '' ;'') \<and>
   (Literal tok = ''return'' \<longrightarrow>
      String_statement (Some (ReturnStatement tok None)) = Inr ''return ;'') \<and>
   String_statement (Some (ExpressionStatement tok None)) = Inr ''''"
  by simp

theorem String_without_optional_child_witness:
  "Literal \<lparr>Type = LET, Literal = ''let''\<rparr> = ''let'' \<and>
   String_statement (Some (LetStatement \<lparr>Type = LET, Literal = ''let''\<rparr>
      (Some (Identifier \<lparr>Type = IDENT, Literal = ''x''\<rparr> ''x'')) None)) = Inr ''let x = ;'' \<and>
   Literal \<lparr>Type = RETURN, Literal = ''return''\<rparr> = ''return'' \<and>
   String_statement (Some (ReturnStatement \<lparr>Type = RETURN, Literal = ''return''\<rparr> None)) =
     Inr ''return ;'' \<and>
   String_statement (Some (ExpressionStatement \<lparr>Type = IDENT, Literal = ''x''\<rparr> None)) = Inr ''''"
  using String_without_optional_child
    [of "\<lparr>Type = LET, Literal = ''let''\<rparr>" "\<lparr>Type = IDENT, Literal = ''x''\<rparr>" "''x''"]
    String_without_optional_child
    [of "\<lparr>Type = RETURN, Literal = ''return''\<rparr>" "\<lparr>Type = IDENT, Literal = ''x''\<rparr>" "''x''"]
    String_without_optional_child
    [of "\<lparr>Type = IDENT, Literal = ''x''\<rparr>" "\<lparr>Type = IDENT, Literal = ''x''\<rparr>" "''x''"]
  by simp

text \<open>
  The children that the methods do not test are not optional: without them
  \<^verbatim>\<open>String\<close> panics.
\<close>

lemma String_without_mandatory_child:
  "String_statement (Some (LetStatement tok None v)) = Inl NilPointerDereference"
  "String_expression (Some (PrefixExpression tok opr None)) = Inl NilPointerDereference"
  "String_expression (Some (InfixExpression tok None opr r)) = Inl NilPointerDereference"
  "String_expression (Some (IfExpression tok None t e)) = Inl NilPointerDereference"
  "String_expression (Some (FunctionLiteral tok [] None)) = Inl NilPointerDereference"
  "String_expression (Some (CallExpression tok None [])) = Inl NilPointerDereference"
  "String_program (Program [None]) = Inl NilPointerDereference"
  by simp_all

section \<open>Objects: properties\<close>

text \<open>
  C9. The wrapper of a returned value does not show in the display: for every value
  \<^verbatim>\<open>v\<close> of the interface (the \<^verbatim>\<open>nil\<close> interface included, where both sides
  panic), \<^verbatim>\<open>Inspect\<close> of the wrapper is \<^verbatim>\<open>Inspect\<close> of \<^verbatim>\<open>v\<close>, although the
  two differ in \<^verbatim>\<open>Type\<close>; \<^verbatim>\<open>Inspect\<close> of an error is its message after
  \<^verbatim>\<open>ERROR: \<close>.
\<close>

theorem ReturnValue_Inspect:
  "Inspect (Some (ReturnValue v)) = Inspect v \<and>
   Type_obj (Some (ReturnValue v)) = Inr ''RETURN_VALUE'' \<and>
   Inspect (Some (Error m)) = Inr (''ERROR: '' @ m)"
  by (simp add: RETURN_VALUE_OBJ_def)

theorem ReturnValue_Inspect_witness:
  "Inspect (Some (ReturnValue (Some (Integer (- 42))))) = Inr ''-42'' \<and>
   Inspect (Some (ReturnValue (Some (ReturnValue (Some (Boolean_obj True)))))) = Inr ''true'' \<and>
   Inspect (Some (ReturnValue None)) = Inl NilPointerDereference \<and>
   Inspect (Some (Error ''identifier not found: x'')) = Inr ''ERROR: identifier not found: x''"
  using ReturnValue_Inspect [of "Some (Integer (- 42))" "''identifier not found: x''"]
    ReturnValue_Inspect [of "Some (ReturnValue (Some (Boolean_obj True)))"]
    ReturnValue_Inspect [of "Some (Boolean_obj True)"]
    ReturnValue_Inspect [of None]
  by (simp add: Sprintf_d_def Sprintf_t_def decimal.simps)

section \<open>The read loop: properties\<close>

lemma print_tokens_EOF:
  "Type (fst (next l)) = EOF \<Longrightarrow> print_tokens next l stdout = Some stdout"
  by (subst print_tokens.simps) (auto split: prod.split)

lemma print_tokens_step:
  "next l = (tok, l') \<Longrightarrow> Type tok \<noteq> EOF \<Longrightarrow>
   print_tokens next l stdout = print_tokens next l' (stdout @ [Printf_token tok])"
  by (subst print_tokens.simps) simp

lemma print_tokens_stream:
  "token_stream next l ts \<Longrightarrow>
   print_tokens next l stdout = Some (stdout @ map Printf_token ts)"
proof (induction arbitrary: stdout rule: token_stream.induct)
  case (at_EOF l)
  then show ?case
    by (simp add: print_tokens_EOF)
next
  case (before_EOF l tok l' ts)
  then show ?case
    by (simp add: print_tokens_step)
qed

lemma token_stream_no_EOF: "token_stream next l ts \<Longrightarrow> t \<in> set ts \<Longrightarrow> Type t \<noteq> EOF"
  by (induction rule: token_stream.induct) auto

text \<open>The loop over the tokens of a line returns only when the lexer reaches the end.\<close>

lemma print_tokens_returns_aux:
  assumes "print_tokens next l stdout = Some stdout'"
  shows "\<exists>ts. token_stream next l ts \<and> stdout' = stdout @ map Printf_token ts"
proof (rule print_tokens.raw_induct
    [where P = "\<lambda>next l stdout stdout'.
        \<exists>ts. token_stream next l ts \<and> stdout' = stdout @ map Printf_token ts",
     OF _ assms])
  fix pt and "next" :: "'a \<Rightarrow> token \<times> 'a" and l stdout stdout'
  assume IH: "\<And>next l stdout stdout'. pt next l stdout = Some stdout' \<Longrightarrow>
      \<exists>ts. token_stream next l ts \<and> stdout' = stdout @ map Printf_token ts"
    and body: "(case next l of
        (tok, l') \<Rightarrow>
          if Type tok \<noteq> EOF then pt next l' (stdout @ [Printf_token tok])
          else Some stdout) = Some stdout'"
  obtain tok l' where nl: "next l = (tok, l')"
    by (cases "next l")
  show "\<exists>ts. token_stream next l ts \<and> stdout' = stdout @ map Printf_token ts"
  proof (cases "Type tok = EOF")
    case True
    with nl body have "stdout' = stdout" and "token_stream next l []"
      by (simp_all add: token_stream.at_EOF)
    then show ?thesis
      by auto
  next
    case False
    with nl body have "pt next l' (stdout @ [Printf_token tok]) = Some stdout'"
      by simp
    from IH [OF this] obtain ts where
      "token_stream next l' ts" "stdout' = (stdout @ [Printf_token tok]) @ map Printf_token ts"
      by blast
    with nl False have "token_stream next l (tok # ts)"
      and "stdout' = stdout @ map Printf_token (tok # ts)"
      by (simp_all add: token_stream.before_EOF)
    then show ?thesis
      by blast
  qed
qed

lemma Start_returns_only_if:
  "Start new next lines stdout = Some stdout' \<Longrightarrow>
   \<exists>tss. list_all2 (\<lambda>line ts. token_stream next (new line) ts) lines tss"
proof (induction lines arbitrary: stdout)
  case Nil
  show ?case by simp
next
  case (Cons line lines)
  from Cons.prems obtain out1
    where line: "print_tokens next (new line) (stdout @ [Printf_string PROMPT]) = Some out1"
      and rest: "Start new next lines out1 = Some stdout'"
    by (auto split: option.splits)
  from print_tokens_returns_aux [OF line] obtain ts where "token_stream next (new line) ts"
    by blast
  moreover from Cons.IH [OF rest] obtain tss
    where "list_all2 (\<lambda>line ts. token_stream next (new line) ts) lines tss"
    by blast
  ultimately have "list_all2 (\<lambda>line ts. token_stream next (new line) ts)
      (line # lines) (ts # tss)"
    by simp
  then show ?case ..
qed

lemma Start_lines:
  "list_all2 (\<lambda>line ts. token_stream next (new line) ts) lines tss \<Longrightarrow>
   Start new next lines stdout =
     Some (stdout @ concat (map (\<lambda>ts. Printf_string PROMPT # map Printf_token ts) tss) @
           [Printf_string PROMPT])"
proof (induction arbitrary: stdout rule: list_all2_induct)
  case Nil
  show ?case
    by simp
next
  case (Cons line ts lines tss)
  show ?case
    by (simp add: print_tokens_stream [OF Cons.hyps(1)] Cons.IH)
qed

subsection \<open>The lexer after the spec reaches the end of every line\<close>

lemma length_dropWhile_less: "xs \<noteq> [] \<Longrightarrow> P (hd xs) \<Longrightarrow> length (dropWhile P xs) < length xs"
  by (cases xs) (simp_all add: le_imp_less_Suc length_dropWhile_le)

lemma lexer_NextToken_shorter:
  assumes "lexer_NextToken l = (tok, l')" and "Type tok \<noteq> EOF"
  shows "length l' < length l"
proof (cases "dropWhile isWhitespace l")
  case Nil
  with assms show ?thesis
    by (auto simp: lexer_NextToken_def)
next
  case (Cons c cs)
  have "length (c # cs) \<le> length l"
    unfolding Cons [symmetric] by (rule length_dropWhile_le)
  moreover have "length l' \<le> length cs"
    using assms(1) Cons length_dropWhile_le [of isLetter cs] length_dropWhile_le [of isDigit cs]
    by (auto simp: lexer_NextToken_def split: if_splits)
  ultimately show ?thesis
    by simp
qed

lemma lexer_reaches_EOF: "\<exists>ts. token_stream lexer_NextToken l ts"
proof (induction l rule: length_induct)
  case (1 l)
  obtain tok l' where nl: "lexer_NextToken l = (tok, l')"
    by (cases "lexer_NextToken l")
  show ?case
  proof (cases "Type tok = EOF")
    case True
    with nl have "token_stream lexer_NextToken l []"
      by (simp add: token_stream.at_EOF)
    then show ?thesis ..
  next
    case False
    with nl have "length l' < length l"
      by (rule lexer_NextToken_shorter)
    with 1 obtain ts where "token_stream lexer_NextToken l' ts"
      by blast
    with nl False have "token_stream lexer_NextToken l (tok # ts)"
      by (rule token_stream.before_EOF)
    then show ?thesis ..
  qed
qed

lemma Start_lexer_returns: "\<exists>stdout'. Start lexer_New lexer_NextToken lines stdout = Some stdout'"
proof -
  have "\<exists>tss. list_all2 (\<lambda>line ts. token_stream lexer_NextToken (lexer_New line) ts) lines tss"
  proof (induction lines)
    case Nil
    show ?case by simp
  next
    case (Cons line lines)
    then obtain tss where "list_all2 (\<lambda>line ts. token_stream lexer_NextToken (lexer_New line) ts) lines tss"
      by blast
    moreover obtain ts where "token_stream lexer_NextToken (lexer_New line) ts"
      using lexer_reaches_EOF by blast
    ultimately have "list_all2 (\<lambda>line ts. token_stream lexer_NextToken (lexer_New line) ts)
        (line # lines) (ts # tss)"
      by simp
    then show ?case ..
  qed
  then show ?thesis
    by (auto dest: Start_lines)
qed

lemma lexer_stream_step:
  "lexer_NextToken l = (tok, l') \<Longrightarrow> Type tok \<noteq> EOF \<Longrightarrow> token_stream lexer_NextToken l' ts \<Longrightarrow>
   token_stream lexer_NextToken l (tok # ts)"
  by (rule token_stream.before_EOF)

lemma lexer_stream_end:
  "Type (fst (lexer_NextToken l)) = EOF \<Longrightarrow> token_stream lexer_NextToken l []"
  by (rule token_stream.at_EOF)

lemma token_stream_let_x:
  "token_stream lexer_NextToken (lexer_New ''let x = 5;'')
     [\<lparr>Type = LET, Literal = ''let''\<rparr>, \<lparr>Type = IDENT, Literal = ''x''\<rparr>,
      \<lparr>Type = ASSIGN, Literal = ''=''\<rparr>, \<lparr>Type = INT', Literal = ''5''\<rparr>,
      \<lparr>Type = SEMICOLON, Literal = '';''\<rparr>]"
proof -
  have 1: "lexer_NextToken ''let x = 5;'' = (\<lparr>Type = LET, Literal = ''let''\<rparr>, '' x = 5;'')"
    by (simp add: lexer_NextToken_def isWhitespace_def isLetter_def LookupIdent_def keyword_table_def)
  have 2: "lexer_NextToken '' x = 5;'' = (\<lparr>Type = IDENT, Literal = ''x''\<rparr>, '' = 5;'')"
    by (simp add: lexer_NextToken_def isWhitespace_def isLetter_def LookupIdent_def keyword_table_def)
  have 3: "lexer_NextToken '' = 5;'' = (\<lparr>Type = ASSIGN, Literal = ''=''\<rparr>, '' 5;'')"
    by (simp add: lexer_NextToken_def isWhitespace_def isLetter_def isDigit_def single_character_def)
  have 4: "lexer_NextToken '' 5;'' = (\<lparr>Type = INT', Literal = ''5''\<rparr>, '';'')"
    by (simp add: lexer_NextToken_def isWhitespace_def isLetter_def isDigit_def)
  have 5: "lexer_NextToken '';'' = (\<lparr>Type = SEMICOLON, Literal = '';''\<rparr>, [])"
    by (simp add: lexer_NextToken_def isWhitespace_def isLetter_def isDigit_def single_character_def)
  have 6: "Type (fst (lexer_NextToken [])) = EOF"
    by (simp add: lexer_NextToken_def)
  show ?thesis
    unfolding lexer_New_def
    by (rule lexer_stream_step [OF 1], simp,
        rule lexer_stream_step [OF 2], simp,
        rule lexer_stream_step [OF 3], simp,
        rule lexer_stream_step [OF 4], simp,
        rule lexer_stream_step [OF 5], simp,
        rule lexer_stream_end [OF 6])
qed

lemma token_stream_blank: "token_stream lexer_NextToken (lexer_New ''  '') []"
  by (rule lexer_stream_end) (simp add: lexer_NextToken_def lexer_New_def isWhitespace_def)

text \<open>
  C6. \<^verbatim>\<open>Start\<close> builds a lexer from every line with \<^verbatim>\<open>lexer.New\<close> and prints, line
  by line and in order, the tokens the lexer produces before its first end-of-input
  token, each line's tokens after a prompt; no end-of-input token is printed; after the
  last line it prints one more prompt and returns. \<open>tss\<close> lists, for every line, the
  tokens before the end-of-input token of a lexer built from that line.
\<close>

theorem Start_prints_tokens:
  assumes "list_all2 (\<lambda>line ts. token_stream next (new line) ts) lines tss"
  shows "\<exists>stdout. Start new next lines [] = Some stdout \<and>
     stdout = concat (map (\<lambda>ts. Printf_string PROMPT # map Printf_token ts) tss) @
              [Printf_string PROMPT] \<and>
     [t. Printf_token t \<leftarrow> stdout] = concat tss \<and>
     (\<forall>t. Printf_token t \<in> set stdout \<longrightarrow> Type t \<noteq> EOF)"
proof -
  let ?out = "concat (map (\<lambda>ts. Printf_string PROMPT # map Printf_token ts) tss) @
      [Printf_string PROMPT]"
  have "Start new next lines [] = Some ?out"
    using Start_lines [OF assms, of "[]"] by simp
  moreover have "\<forall>t. Printf_token t \<in> set ?out \<longrightarrow> Type t \<noteq> EOF"
  proof (intro allI impI)
    fix t assume "Printf_token t \<in> set ?out"
    then obtain ts where "ts \<in> set tss" "t \<in> set ts"
      by (auto split: if_splits)
    moreover from \<open>ts \<in> set tss\<close> assms obtain line where "token_stream next (new line) ts"
      by (auto simp: in_set_conv_nth list_all2_conv_all_nth)
    ultimately show "Type t \<noteq> EOF"
      by (auto dest: token_stream_no_EOF)
  qed
  moreover have "[t. Printf_token t \<leftarrow> ?out] = concat tss"
    by (induction tss) (simp_all add: comp_def)
  ultimately show ?thesis
    by blast
qed

theorem Start_prints_tokens_witness:
  "list_all2 (\<lambda>line ts. token_stream lexer_NextToken (lexer_New line) ts)
     [''let x = 5;'', ''  '']
     [[\<lparr>Type = LET, Literal = ''let''\<rparr>, \<lparr>Type = IDENT, Literal = ''x''\<rparr>,
       \<lparr>Type = ASSIGN, Literal = ''=''\<rparr>, \<lparr>Type = INT', Literal = ''5''\<rparr>,
       \<lparr>Type = SEMICOLON, Literal = '';''\<rparr>], []] \<and>
   Start lexer_New lexer_NextToken [''let x = 5;'', ''  ''] [] =
     Some [Printf_string ''>> '',
           Printf_token \<lparr>Type = LET, Literal = ''let''\<rparr>,
           Printf_token \<lparr>Type = IDENT, Literal = ''x''\<rparr>,
           Printf_token \<lparr>Type = ASSIGN, Literal = ''=''\<rparr>,
           Printf_token \<lparr>Type = INT', Literal = ''5''\<rparr>,
           Printf_token \<lparr>Type = SEMICOLON, Literal = '';''\<rparr>,
           Printf_string ''>> '',
           Printf_string ''>> '']"
proof -
  have streams: "list_all2 (\<lambda>line ts. token_stream lexer_NextToken (lexer_New line) ts)
     [''let x = 5;'', ''  '']
     [[\<lparr>Type = LET, Literal = ''let''\<rparr>, \<lparr>Type = IDENT, Literal = ''x''\<rparr>,
       \<lparr>Type = ASSIGN, Literal = ''=''\<rparr>, \<lparr>Type = INT', Literal = ''5''\<rparr>,
       \<lparr>Type = SEMICOLON, Literal = '';''\<rparr>], []]"
    using token_stream_let_x token_stream_blank by simp
  from Start_prints_tokens [OF streams] streams show ?thesis
    by (simp add: PROMPT_def)
qed

section \<open>Rendering and parsing again\<close>






lemma boundary_simps [simp]:
  "boundary (CHR '')'' # r)" "boundary (CHR '' '' # r)" "boundary []"
  by (simp_all add: boundary_def isLetter_def isDigit_def)












text \<open>
  The lexer after the spec on the rendering of the if expressions: two identifiers, and
  no token of the keyword \<^verbatim>\<open>if\<close>.
\<close>

lemma token_stream_ifx_ab:
  "token_stream lexer_NextToken (lexer_New ''ifx ab'')
     [\<lparr>Type = IDENT, Literal = ''ifx''\<rparr>, \<lparr>Type = IDENT, Literal = ''ab''\<rparr>]"
proof -
  have 1: "lexer_NextToken ''ifx ab'' = (\<lparr>Type = IDENT, Literal = ''ifx''\<rparr>, '' ab'')"
    by (simp add: lexer_NextToken_def isWhitespace_def isLetter_def LookupIdent_def keyword_table_def)
  have 2: "lexer_NextToken '' ab'' = (\<lparr>Type = IDENT, Literal = ''ab''\<rparr>, [])"
    by (simp add: lexer_NextToken_def isWhitespace_def isLetter_def LookupIdent_def keyword_table_def)
  have 3: "Type (fst (lexer_NextToken [])) = EOF"
    by (simp add: lexer_NextToken_def)
  show ?thesis
    unfolding lexer_New_def
    by (rule lexer_stream_step [OF 1], simp,
        rule lexer_stream_step [OF 2], simp,
        rule lexer_stream_end [OF 3])
qed




end
